theory Spec2Isabelle
  imports
    Complex_Main
    "HOL-Library.Log_Nat"
    "HOL-Library.Multiset"
    "HOL-Library.Sublist"
    "HOL-Library.AList"
begin

section \<open>The ticket model (backend\_logic.py, class Ticket)\<close>

text \<open>
  A ticket is one row of the table behind \<^verbatim>\<open>class Ticket(models.Model)\<close>. The three
  choice fields are \<^verbatim>\<open>CharField\<close>s: the column holds any string, and the choices are
  enforced by validation only, so the fields are strings here as well. \<^verbatim>\<open>created_at\<close>
  is a timestamp with the microsecond resolution of Python's \<^verbatim>\<open>datetime\<close>, counted in
  microseconds from a fixed epoch. A ticket set is the list of the rows in storage order.
\<close>

record ticket =
  ticket_id :: nat
  title :: string
  description :: string
  category :: string
  priority :: string
  status :: string
  created_at :: int

definition CATEGORY_CHOICES :: "(string \<times> string) list" where
  "CATEGORY_CHOICES =
     [(''billing'', ''Billing''), (''technical'', ''Technical''),
      (''account'', ''Account''), (''general'', ''General'')]"

definition PRIORITY_CHOICES :: "(string \<times> string) list" where
  "PRIORITY_CHOICES =
     [(''low'', ''Low''), (''medium'', ''Medium''),
      (''high'', ''High''), (''critical'', ''Critical'')]"

definition STATUS_CHOICES :: "(string \<times> string) list" where
  "STATUS_CHOICES =
     [(''open'', ''Open''), (''in_progress'', ''In Progress''),
      (''resolved'', ''Resolved''), (''closed'', ''Closed'')]"

text \<open>
  \<^verbatim>\<open>class Meta: ordering = ['-created_at']\<close>: every queryset built from
  \<^verbatim>\<open>Ticket.objects.all()\<close> is ordered by \<^verbatim>\<open>created_at\<close>, descending. The database
  leaves the order of rows with equal timestamps open; the stable sort below fixes one such
  order, and no theorem of this file depends on which.
\<close>

definition objects_all :: "ticket list \<Rightarrow> ticket list" where
  "objects_all ts = sort_key (\<lambda>t. - created_at t) ts"

section \<open>Python values: exceptions, time differences, floats\<close>

text \<open>An exception is its class name and the text that \<^verbatim>\<open>str(e)\<close> gives.\<close>

datatype exn = Exn (exn_class: string) (exn_str: string)

definition ZeroDivisionError :: exn where
  "ZeroDivisionError = Exn ''ZeroDivisionError'' ''division by zero''"

definition usec_per_day :: int where
  "usec_per_day = 86400000000"

text \<open>
  \<^verbatim>\<open>(a - b).days\<close>: a \<^verbatim>\<open>timedelta\<close> is normalised so that its seconds and microseconds
  are non-negative, hence \<^verbatim>\<open>.days\<close> is the floor of the difference in days, also for a
  negative difference.
\<close>

definition timedelta_days :: "int \<Rightarrow> int" where
  "timedelta_days delta = delta div usec_per_day"

text \<open>
  Python floats are IEEE binary64 values. A float is modelled by the rational number it
  denotes. The two float operations of the source are both correctly rounded
  (round-half-to-even): \<^verbatim>\<open>int / int\<close> gives the float nearest to the exact quotient, and
  \<^verbatim>\<open>round(x, 1)\<close> gives the float nearest to the one-decimal number nearest to the exact
  value of \<^verbatim>\<open>x\<close>. The 53 bits of precision are modelled; the exponent range is not (the
  operands are a row count and a day count, whose quotient is far from both ends of it).
\<close>

definition round_div :: "int \<Rightarrow> int \<Rightarrow> int" where
  \<comment> \<open>the integer nearest to \<open>n / d\<close> for \<open>0 < d\<close>, a tie going to the even one\<close>
  "round_div n d =
     (let f = n div d; r = n mod d
      in if 2 * r < d then f
         else if d < 2 * r then f + 1
         else if even f then f else f + 1)"

definition fl_shift :: "int \<Rightarrow> int \<Rightarrow> int" where
  \<comment> \<open>for \<open>0 < a\<close> and \<open>0 < b\<close>: the \<open>s\<close> with \<open>2 ^ 52 \<le> a / b * 2 ^ s < 2 ^ 53\<close>\<close>
  "fl_shift a b =
     (let s0 = 53 + bitlen b - bitlen a
      in if b * 2 ^ 53 * 2 ^ nat (- s0) \<le> a * 2 ^ nat s0 then s0 - 1 else s0)"

definition fl_pos :: "int \<Rightarrow> int \<Rightarrow> rat" where
  \<comment> \<open>for \<open>0 < a\<close> and \<open>0 < b\<close>: scale \<open>a / b\<close> into \<open>[2 ^ 52, 2 ^ 53)\<close>, round to an
      integer mantissa, scale back\<close>
  "fl_pos a b =
     (let s = fl_shift a b;
          m = round_div (a * 2 ^ nat s) (b * 2 ^ nat (- s))
      in of_int (m * 2 ^ nat (- s)) / of_int (2 ^ nat s))"

definition fl_quot :: "int \<Rightarrow> int \<Rightarrow> rat" where
  \<comment> \<open>the binary64 value nearest to \<open>a / b\<close>, for \<open>b \<noteq> 0\<close>\<close>
  "fl_quot a b =
     (if a = 0 then 0
      else if (a < 0) = (b < 0) then fl_pos \<bar>a\<bar> \<bar>b\<bar>
      else - fl_pos \<bar>a\<bar> \<bar>b\<bar>)"

definition py_truediv :: "int \<Rightarrow> int \<Rightarrow> exn + rat" where
  "py_truediv a b = (if b = 0 then Inl ZeroDivisionError else Inr (fl_quot a b))"

definition py_round1 :: "rat \<Rightarrow> rat" where
  \<comment> \<open>\<^verbatim>\<open>round(x, 1)\<close> on a float\<close>
  "py_round1 x = (case quotient_of x of (n, d) \<Rightarrow> fl_quot (round_div (10 * n) d) 10)"

text \<open>\<^verbatim>\<open>x or d\<close> on a count and on an optional timestamp.\<close>

definition count_or :: "nat \<Rightarrow> nat \<Rightarrow> nat" where
  "count_or x d = (if x = 0 then d else x)"

definition none_or :: "'a option \<Rightarrow> 'a \<Rightarrow> 'a" where
  "none_or x d = (case x of None \<Rightarrow> d | Some v \<Rightarrow> v)"

section \<open>The stats operation (TicketViewSet.stats)\<close>

record base_stats =
  bs_total_tickets :: nat
  bs_open_tickets :: nat
  bs_first_ticket :: "int option"

text \<open>
  \<^verbatim>\<open>Ticket.objects.aggregate(Count('id'), Count('id', filter=Q(status='open')),
  Min('created_at'))\<close>: the primary key is never null, so the first count is the number of
  rows; \<^verbatim>\<open>Min\<close> over no rows is \<^verbatim>\<open>None\<close>.
\<close>

definition aggregate :: "ticket list \<Rightarrow> base_stats" where
  "aggregate ts =
     \<lparr> bs_total_tickets = length ts,
       bs_open_tickets = length (filter (\<lambda>t. status t = ''open'') ts),
       bs_first_ticket =
         (case ts of [] \<Rightarrow> None
          | t # rest \<Rightarrow> Some (fold (\<lambda>u m. min (created_at u) m) rest (created_at t))) \<rparr>"

text \<open>
  \<^verbatim>\<open>Ticket.objects.values(f).annotate(count=Count(f))\<close>: one row per value of the field
  that occurs, with the number of tickets that have it (group by the field alone, as Django
  does from version 3.1 on, where \<^verbatim>\<open>Meta.ordering\<close> no longer enters the grouping). The
  database leaves the order of the rows open; the order of first occurrence stands for it.
\<close>

definition values_count :: "(ticket \<Rightarrow> string) \<Rightarrow> ticket list \<Rightarrow> (string \<times> nat) list" where
  "values_count f ts =
     map (\<lambda>k. (k, length (filter (\<lambda>t. f t = k) ts))) (remdups (map f ts))"

text \<open>
  The loop \<^verbatim>\<open>for item in data: breakdown[item[f]] = item['count']\<close> over a dictionary,
  which is an association list in insertion order: an assignment overwrites the value of a
  key that is there and appends a key that is not.
\<close>

fun fill_breakdown :: "(string \<times> nat) list \<Rightarrow> (string \<times> nat) list \<Rightarrow> (string \<times> nat) list" where
  "fill_breakdown d [] = d"
| "fill_breakdown d ((k, c) # items) = fill_breakdown (AList.update k c d) items"

record stats_response =
  total_tickets :: nat
  open_tickets :: nat
  avg_tickets_per_day :: rat
  priority_breakdown :: "(string \<times> nat) list"
  category_breakdown :: "(string \<times> nat) list"

definition stats :: "int \<Rightarrow> ticket list \<Rightarrow> exn + stats_response" where
  "stats now ts =
     (let thirty_days_ago = now - 30 * usec_per_day;
          base = aggregate ts;
          total = count_or (bs_total_tickets base) 0;
          first_ticket = none_or (bs_first_ticket base) now;
          days_active = max (timedelta_days (now - first_ticket)) 1
      in case py_truediv (int total) days_active of
           Inl e \<Rightarrow> Inl e
         | Inr q \<Rightarrow>
             (let avg_per_day = py_round1 q;
                  priority_data = values_count priority ts;
                  category_data = values_count category ts;
                  pb = fill_breakdown (map (\<lambda>p. (fst p, 0)) PRIORITY_CHOICES) priority_data;
                  cb = fill_breakdown (map (\<lambda>c. (fst c, 0)) CATEGORY_CHOICES) category_data
              in Inr \<lparr> total_tickets = total,
                       open_tickets = count_or (bs_open_tickets base) 0,
                       avg_tickets_per_day = avg_per_day,
                       priority_breakdown = pb,
                       category_breakdown = cb \<rparr>))"

section \<open>The list operation (TicketViewSet.get\_queryset)\<close>

text \<open>
  \<^verbatim>\<open>request.query_params.get(name)\<close> is \<^verbatim>\<open>None\<close> for a parameter that the request
  does not carry and its string value otherwise; \<^verbatim>\<open>?category=\<close> carries the empty
  string.
\<close>

record query_params =
  q_category :: "string option"
  q_priority :: "string option"
  q_status :: "string option"
  q_search :: "string option"

text \<open>
  \<^verbatim>\<open>field__icontains=s\<close> is the case-insensitive containment test of the database
  (\<^verbatim>\<open>LIKE '%s%'\<close> with the wildcards of \<^verbatim>\<open>s\<close> escaped). Strings are byte strings
  here, and the case of the ASCII letters is the one folded, as SQLite does.
\<close>

definition ascii_lower :: "char \<Rightarrow> char" where
  "ascii_lower c =
     (case map_of (zip ''ABCDEFGHIJKLMNOPQRSTUVWXYZ'' ''abcdefghijklmnopqrstuvwxyz'') c of
        None \<Rightarrow> c
      | Some l \<Rightarrow> l)"

definition icontains :: "string \<Rightarrow> string \<Rightarrow> bool" where
  "icontains field s = sublist (map ascii_lower s) (map ascii_lower field)"

text \<open>
  \<^verbatim>\<open>if param: queryset = queryset.filter(...)\<close>: the filter is applied when the
  parameter is truthy, which \<^verbatim>\<open>None\<close> and the empty string are not.
\<close>

definition filter_if :: "string option \<Rightarrow> (string \<Rightarrow> ticket \<Rightarrow> bool) \<Rightarrow> ticket list \<Rightarrow> ticket list" where
  "filter_if param cond queryset =
     (case param of
        None \<Rightarrow> queryset
      | Some v \<Rightarrow> if v = [] then queryset else filter (cond v) queryset)"

definition get_queryset :: "query_params \<Rightarrow> ticket list \<Rightarrow> ticket list" where
  "get_queryset qp ts =
     (let queryset = objects_all ts;
          queryset = filter_if (q_category qp) (\<lambda>v t. category t = v) queryset;
          queryset = filter_if (q_priority qp) (\<lambda>v t. priority t = v) queryset;
          queryset = filter_if (q_status qp) (\<lambda>v t. status t = v) queryset;
          queryset = filter_if (q_search qp)
                       (\<lambda>v t. icontains (title t) v \<or> icontains (description t) v) queryset
      in queryset)"

section \<open>The classify operation (ClassifyView.post)\<close>

text \<open>
  The values of a request body and of a response body are JSON values as Python holds them
  (\<^verbatim>\<open>None\<close>, \<^verbatim>\<open>bool\<close>, \<^verbatim>\<open>int\<close>, \<^verbatim>\<open>float\<close>, \<^verbatim>\<open>str\<close>, \<^verbatim>\<open>list\<close>, and
  \<^verbatim>\<open>dict\<close> in insertion order, each key once), with Python's truth value and the name
  of the Python type.
\<close>

datatype json =
    JNull
  | JBool bool
  | JInt int
  | JFloat rat
  | JStr string
  | JArr "json list"
  | JObj "(string \<times> json) list"

fun truthy :: "json \<Rightarrow> bool" where
  "truthy JNull = False"
| "truthy (JBool b) = b"
| "truthy (JInt n) = (n \<noteq> 0)"
| "truthy (JFloat x) = (x \<noteq> 0)"
| "truthy (JStr s) = (s \<noteq> [])"
| "truthy (JArr xs) = (xs \<noteq> [])"
| "truthy (JObj kvs) = (kvs \<noteq> [])"

fun py_type_name :: "json \<Rightarrow> string" where
  "py_type_name JNull = ''NoneType''"
| "py_type_name (JBool b) = ''bool''"
| "py_type_name (JInt n) = ''int''"
| "py_type_name (JFloat x) = ''float''"
| "py_type_name (JStr s) = ''str''"
| "py_type_name (JArr xs) = ''list''"
| "py_type_name (JObj kvs) = ''dict''"

text \<open>
  \<^verbatim>\<open>obj.get(key, default)\<close>: the lookup with a default on a dictionary (a form body, a
  \<^verbatim>\<open>QueryDict\<close>, is one as well); every other value has no attribute \<^verbatim>\<open>get\<close>, and the
  call raises \<^verbatim>\<open>AttributeError\<close>.
\<close>

definition quoted :: "string \<Rightarrow> string" where
  "quoted s = CHR 0x27 # s @ [CHR 0x27]"

definition AttributeError :: "string \<Rightarrow> string \<Rightarrow> exn" where
  "AttributeError type_name attr =
     Exn ''AttributeError'' (quoted type_name @ '' object has no attribute '' @ quoted attr)"

definition py_get :: "json \<Rightarrow> string \<Rightarrow> json \<Rightarrow> exn + json" where
  "py_get obj key dflt =
     (case obj of
        JObj kvs \<Rightarrow> Inr (case map_of kvs key of None \<Rightarrow> dflt | Some v \<Rightarrow> v)
      | _ \<Rightarrow> Inl (AttributeError (py_type_name obj) ''get''))"

record response =
  status_code :: nat
  data :: json

definition HTTP_200_OK :: nat where
  "HTTP_200_OK = 200"

definition HTTP_400_BAD_REQUEST :: nat where
  "HTTP_400_BAD_REQUEST = 400"

text \<open>
  The outbound request: the model name, the description that the f-string puts into the
  fixed prompt, and the timeout in seconds. A completion is the list of its choices, each
  the \<^verbatim>\<open>message.content\<close> of the choice, which may be \<^verbatim>\<open>None\<close>.
\<close>

record chat_request =
  req_model :: string
  req_description :: json
  req_timeout :: nat

record completion =
  choices :: "string option list"

text \<open>
  What the view does not own is a parameter: the environment variable, what the service
  answers to a request (a completion, or an exception: timeout, connection error, error
  status), and \<^verbatim>\<open>json.loads\<close>. The exceptions are instances of \<^verbatim>\<open>Exception\<close>, the
  class that the \<^verbatim>\<open>except\<close> clause names.
\<close>

record world =
  env_OPENAI_API_KEY :: "string option"
  chat_completions_create :: "chat_request \<Rightarrow> exn + completion"
  json_loads :: "string \<Rightarrow> exn + json"

text \<open>
  \<^verbatim>\<open>OpenAI(api_key=os.environ.get("OPENAI_API_KEY"))\<close>: the constructor raises when it
  finds no key (the message is abridged here). It stands before the \<^verbatim>\<open>try\<close>, so the
  exception leaves \<^verbatim>\<open>post\<close>.
\<close>

definition OpenAI :: "string option \<Rightarrow> exn + string" where
  "OpenAI api_key =
     (case api_key of
        None \<Rightarrow> Inl (Exn ''OpenAIError'' ''The api_key client option must be set'')
      | Some k \<Rightarrow> Inr k)"

text \<open>
  The body of the \<^verbatim>\<open>try\<close>: the call, \<^verbatim>\<open>response.choices[0].message.content\<close>, and
  \<^verbatim>\<open>json.loads\<close> of it. Every exception of the three steps is a left value.
\<close>

definition try_body :: "world \<Rightarrow> chat_request \<Rightarrow> exn + json" where
  "try_body w rq =
     (case chat_completions_create w rq of
        Inl e \<Rightarrow> Inl e
      | Inr response \<Rightarrow>
          (case choices response of
             [] \<Rightarrow> Inl (Exn ''IndexError'' ''list index out of range'')
           | content # _ \<Rightarrow>
               (case content of
                  None \<Rightarrow>
                    Inl (Exn ''TypeError''
                      ''the JSON object must be str, bytes or bytearray, not NoneType'')
                | Some s \<Rightarrow> json_loads w s)))"

definition make_request :: "json \<Rightarrow> chat_request" where
  "make_request descr =
     \<lparr> req_model = ''gpt-4o-mini'', req_description = descr, req_timeout = 5 \<rparr>"

text \<open>
  \<^verbatim>\<open>post\<close> returns the response, or the exception that leaves it, together with the
  outbound requests it has issued, in order. \<^verbatim>\<open>request.data\<close> is whatever the parser
  has made of the body: a dictionary for a JSON object or a form, and a list, a string, a
  number, a boolean or \<^verbatim>\<open>None\<close> for any other JSON text. The exception of
  \<^verbatim>\<open>request.data.get\<close> is raised outside the \<^verbatim>\<open>try\<close> and leaves \<^verbatim>\<open>post\<close>.
\<close>

definition post :: "world \<Rightarrow> json \<Rightarrow> (exn + response) \<times> chat_request list" where
  "post w request_data =
     (case py_get request_data ''description'' (JStr []) of
        Inl e \<Rightarrow> (Inl e, [])
      | Inr descr \<Rightarrow>
          if \<not> truthy descr then
            (Inr \<lparr> status_code = HTTP_400_BAD_REQUEST,
                   data = JObj [(''error'', JStr ''Description required'')] \<rparr>, [])
          else
            (case OpenAI (env_OPENAI_API_KEY w) of
               Inl e \<Rightarrow> (Inl e, [])
             | Inr client \<Rightarrow>
                 (let rq = make_request descr
                  in case try_body w rq of
                       Inr result \<Rightarrow> (Inr \<lparr> status_code = HTTP_200_OK, data = result \<rparr>, [rq])
                     | Inl e \<Rightarrow>
                         (Inr \<lparr> status_code = HTTP_200_OK,
                                data = JObj [(''suggested_category'', JStr ''general''),
                                             (''suggested_priority'', JStr ''medium''),
                                             (''error'', JStr (exn_str e))] \<rparr>, [rq]))))"

section \<open>Notions of the specification\<close>

text \<open>
  The earliest creation time that the average refers to (the request time when there is no
  ticket), and the days active: the whole days from it to the request time, at least 1.
\<close>

definition earliest_created_at :: "int \<Rightarrow> ticket list \<Rightarrow> int" where
  "earliest_created_at now ts = (if ts = [] then now else Min (created_at ` set ts))"

definition days_active :: "int \<Rightarrow> ticket list \<Rightarrow> int" where
  "days_active now ts = max 1 ((now - earliest_created_at now ts) div usec_per_day)"

text \<open>The fixed keys of the two breakdowns, and the tickets that keep to them.\<close>

definition PRIORITY_KEYS :: "string list" where
  "PRIORITY_KEYS = [''low'', ''medium'', ''high'', ''critical'']"

definition CATEGORY_KEYS :: "string list" where
  "CATEGORY_KEYS = [''billing'', ''technical'', ''account'', ''general'']"

definition in_enumerations :: "ticket \<Rightarrow> bool" where
  "in_enumerations t = (priority t \<in> set PRIORITY_KEYS \<and> category t \<in> set CATEGORY_KEYS)"

text \<open>
  A filter parameter counts as supplied with value \<open>v\<close> when the request carries it with
  the non-empty value \<open>v\<close>. A string is a case-insensitive substring of a field when the
  field, both in lower case, has it as a contiguous part. A ticket satisfies the filters when
  it satisfies each supplied one.
\<close>

definition supplied :: "string option \<Rightarrow> string \<Rightarrow> bool" where
  "supplied param v = (param = Some v \<and> v \<noteq> [])"

definition ci_substring :: "string \<Rightarrow> string \<Rightarrow> bool" where
  "ci_substring s field =
     (\<exists>before after. map ascii_lower field = before @ map ascii_lower s @ after)"

definition satisfies_filters :: "query_params \<Rightarrow> ticket \<Rightarrow> bool" where
  "satisfies_filters qp t =
     ((\<forall>v. supplied (q_category qp) v \<longrightarrow> category t = v) \<and>
      (\<forall>v. supplied (q_priority qp) v \<longrightarrow> priority t = v) \<and>
      (\<forall>v. supplied (q_status qp) v \<longrightarrow> status t = v) \<and>
      (\<forall>v. supplied (q_search qp) v \<longrightarrow>
         ci_substring v (title t) \<or> ci_substring v (description t)))"

definition no_params :: query_params where
  "no_params = \<lparr> q_category = None, q_priority = None, q_status = None, q_search = None \<rparr>"

section \<open>Sample data\<close>

definition ticket_refund :: ticket where
  "ticket_refund =
     \<lparr> ticket_id = 1, title = ''Refund request'', description = ''I was charged twice'',
       category = ''billing'', priority = ''high'', status = ''open'', created_at = 1000 \<rparr>"

definition ticket_login :: ticket where
  "ticket_login =
     \<lparr> ticket_id = 2, title = ''Login fails'', description = ''Password reset does not work'',
       category = ''account'', priority = ''medium'', status = ''closed'', created_at = 3000 \<rparr>"

definition ticket_order :: ticket where
  "ticket_order =
     \<lparr> ticket_id = 3, title = ''Order problem'', description = ''Please REFUND my order'',
       category = ''billing'', priority = ''low'', status = ''open'', created_at = 2000 \<rparr>"

definition ticket_urgent :: ticket where
  "ticket_urgent =
     \<lparr> ticket_id = 4, title = ''Server down'', description = ''Nothing responds'',
       category = ''outage'', priority = ''urgent'', status = ''open'', created_at = 4000 \<rparr>"

definition search_refund :: query_params where
  "search_refund =
     \<lparr> q_category = Some ''billing'', q_priority = None, q_status = Some [],
       q_search = Some ''refund'' \<rparr>"

definition category_hardware :: query_params where
  "category_hardware =
     \<lparr> q_category = Some ''hardware'', q_priority = None, q_status = None, q_search = None \<rparr>"

definition category_blank :: query_params where
  "category_blank =
     \<lparr> q_category = Some [], q_priority = None, q_status = None, q_search = None \<rparr>"

text \<open>
  Three worlds for \<^verbatim>\<open>post\<close>: the service cannot be reached; the call ends in an
  exception without a message; the service answers with a JSON object of three fields.
\<close>

definition decode_error :: exn where
  "decode_error = Exn ''JSONDecodeError'' ''Expecting value: line 1 column 1 (char 0)''"

definition world_unreachable :: world where
  "world_unreachable =
     \<lparr> env_OPENAI_API_KEY = Some ''sk-test'',
       chat_completions_create = (\<lambda>rq. Inl (Exn ''APIConnectionError'' ''Connection error.'')),
       json_loads = (\<lambda>s. Inl decode_error) \<rparr>"

definition world_silent :: world where
  "world_silent =
     \<lparr> env_OPENAI_API_KEY = Some ''sk-test'',
       chat_completions_create = (\<lambda>rq. Inl (Exn ''MemoryError'' [])),
       json_loads = (\<lambda>s. Inl decode_error) \<rparr>"

definition content_three :: string where
  \<open>content_three =
     ''{"suggested_category": "spam", "suggested_priority": "high", "confidence": "low"}''\<close>

definition parsed_three :: json where
  "parsed_three =
     JObj [(''suggested_category'', JStr ''spam''), (''suggested_priority'', JStr ''high''),
           (''confidence'', JStr ''low'')]"

definition world_three :: world where
  "world_three =
     \<lparr> env_OPENAI_API_KEY = Some ''sk-test'',
       chat_completions_create = (\<lambda>rq. Inr \<lparr> choices = [Some content_three] \<rparr>),
       json_loads = (\<lambda>s. if s = content_three then Inr parsed_three else Inl decode_error) \<rparr>"

definition request_printer :: json where
  "request_printer = JObj [(''description'', JStr ''The printer is on fire'')]"

text \<open>Tickets for the stats operation: a ticket with a given key and creation time.\<close>

definition ticket_at :: "nat \<Rightarrow> int \<Rightarrow> ticket" where
  "ticket_at i c =
     \<lparr> ticket_id = i, title = ''Printer'', description = ''The printer is on fire'',
       category = ''technical'', priority = ''high'', status = ''open'', created_at = c \<rparr>"

definition day :: "int \<Rightarrow> int" where
  "day n = n * usec_per_day"

section \<open>Classify: a missing or empty description\<close>

text \<open>
  A body that is a JSON object (or a form) without a description, or with the empty string
  as description, is answered with the client error 400 and the message "Description
  required", and no request goes out to the classification service, whatever the
  environment and the service are.
\<close>

lemma classify_rejects_empty_description:
  assumes "request_data = JObj kvs"
    and "map_of kvs ''description'' = None \<or> map_of kvs ''description'' = Some (JStr [])"
  shows "post w request_data =
           (Inr \<lparr> status_code = 400,
                  data = JObj [(''error'', JStr ''Description required'')] \<rparr>, [])"
  using assms by (auto simp: post_def py_get_def HTTP_400_BAD_REQUEST_def)

lemma classify_rejects_empty_description_samples:
  "post world_unreachable (JObj []) =
     (Inr \<lparr> status_code = 400, data = JObj [(''error'', JStr ''Description required'')] \<rparr>, [])"
  "post world_unreachable (JObj [(''description'', JStr [])]) =
     (Inr \<lparr> status_code = 400, data = JObj [(''error'', JStr ''Description required'')] \<rparr>, [])"
  by (simp_all add: classify_rejects_empty_description)

text \<open>
  Claim C5 has every request without a description fail with a client error. The view
  attempts that, and misses the bodies that are no dictionary: for the JSON array
  \<^verbatim>\<open>[]\<close>, or any other array, \<^verbatim>\<open>request.data\<close> is a list, \<^verbatim>\<open>request.data.get\<close> raises
  \<^verbatim>\<open>AttributeError\<close> before the check of the description, and the exception leaves
  \<^verbatim>\<open>post\<close> (a server error); no request goes out.
\<close>

theorem classify_array_body_raises:
  "post w (JArr xs) = (Inl (AttributeError ''list'' ''get''), [])
   \<and> exn_class (AttributeError ''list'' ''get'') = ''AttributeError''"
  by (simp add: post_def py_get_def AttributeError_def)

text \<open>The same holds for every body that is not a dictionary.\<close>

lemma classify_non_object_body_raises:
  assumes "py_type_name request_data \<noteq> ''dict''"
  shows "post w request_data = (Inl (AttributeError (py_type_name request_data) ''get''), [])"
  using assms by (cases request_data) (simp_all add: post_def py_get_def)

section \<open>Classify: the call fails\<close>

text \<open>
  Claim C2, as stated, asks for a non-empty error field after any exception whatsoever. The
  field is \<^verbatim>\<open>str(e)\<close>, which is empty for an exception without a message
  (\<^verbatim>\<open>MemoryError()\<close>, say): then the response is the fallback with the empty string as
  error.
\<close>

theorem classify_empty_error_counterexample:
  "post world_silent request_printer =
     (Inr \<lparr> status_code = 200,
            data = JObj [(''suggested_category'', JStr ''general''),
                         (''suggested_priority'', JStr ''medium''),
                         (''error'', JStr [])] \<rparr>,
      [make_request (JStr ''The printer is on fire'')])"
  by (simp add: post_def py_get_def request_printer_def world_silent_def OpenAI_def
      try_body_def HTTP_200_OK_def)

text \<open>
  Claim C2, amended. For a description that is not empty, once the client exists, every
  exception \<open>e\<close> of the call, of reading its first choice or of parsing the content gives
  the response with status 200 and exactly the fields suggested\_category = "general",
  suggested\_priority = "medium" and error = \<^verbatim>\<open>str(e)\<close>, which is non-empty whenever the
  exception has a message; one request has gone out.
\<close>

theorem classify_failure_fallback:
  assumes "request_data = JObj kvs" and "map_of kvs ''description'' = Some d"
    and "truthy d"
    and "OpenAI (env_OPENAI_API_KEY w) = Inr client"
    and "try_body w (make_request d) = Inl e"
  shows "post w request_data =
           (Inr \<lparr> status_code = 200,
                  data = JObj [(''suggested_category'', JStr ''general''),
                               (''suggested_priority'', JStr ''medium''),
                               (''error'', JStr (exn_str e))] \<rparr>,
            [make_request d])
         \<and> (exn_str e \<noteq> [] \<longrightarrow> JStr (exn_str e) \<noteq> JStr [])"
  using assms by (simp add: post_def py_get_def HTTP_200_OK_def)

theorem classify_failure_fallback_witness:
  "post world_unreachable request_printer =
     (Inr \<lparr> status_code = 200,
            data = JObj [(''suggested_category'', JStr ''general''),
                         (''suggested_priority'', JStr ''medium''),
                         (''error'', JStr ''Connection error.'')] \<rparr>,
      [make_request (JStr ''The printer is on fire'')])"
  using classify_failure_fallback [of request_printer
      "[(''description'', JStr ''The printer is on fire'')]" "JStr ''The printer is on fire''"
      world_unreachable "''sk-test''" "Exn ''APIConnectionError'' ''Connection error.''"]
  by (simp add: request_printer_def world_unreachable_def OpenAI_def try_body_def)

text \<open>
  The constructor of the client stands outside the \<^verbatim>\<open>try\<close>: without an API key in the
  environment its exception leaves \<^verbatim>\<open>post\<close>, and no request goes out.
\<close>

lemma classify_without_api_key:
  assumes "request_data = JObj kvs" and "map_of kvs ''description'' = Some d"
    and "truthy d" and "env_OPENAI_API_KEY w = None"
  shows "post w request_data =
           (Inl (Exn ''OpenAIError'' ''The api_key client option must be set''), [])"
  using assms by (simp add: post_def py_get_def OpenAI_def)

section \<open>Classify: the call succeeds\<close>

text \<open>
  Claim C6, as stated, has the response hold exactly the two fields suggested\_category and
  suggested\_priority. When the content parses to an object of three fields, the response
  holds all three.
\<close>

theorem classify_third_field_counterexample:
  "try_body world_three (make_request (JStr ''The printer is on fire'')) =
     Inr (JObj [(''suggested_category'', JStr ''spam''), (''suggested_priority'', JStr ''high''),
                (''confidence'', JStr ''low'')])
   \<and> fst (post world_three request_printer) =
     Inr \<lparr> status_code = 200,
           data = JObj [(''suggested_category'', JStr ''spam''),
                        (''suggested_priority'', JStr ''high''),
                        (''confidence'', JStr ''low'')] \<rparr>
   \<and> fst (post world_three request_printer) \<noteq>
     Inr \<lparr> status_code = 200,
           data = JObj [(''suggested_category'', JStr ''spam''),
                        (''suggested_priority'', JStr ''high'')] \<rparr>"
  by (simp add: post_def py_get_def request_printer_def world_three_def parsed_three_def
      OpenAI_def try_body_def HTTP_200_OK_def)

text \<open>
  Claim C6, amended. For a description that is not empty, once the client exists, when the
  call returns and its content parses, the response has status 200 and its body is the
  parsed value itself, unchanged: the fields suggested\_category and suggested\_priority
  are the parsed ones whatever their values, no field is added or dropped, and nothing is
  checked against the enumerations; one request has gone out.
\<close>

theorem classify_success_passthrough:
  assumes "request_data = JObj kvs" and "map_of kvs ''description'' = Some d"
    and "truthy d"
    and "OpenAI (env_OPENAI_API_KEY w) = Inr client"
    and "try_body w (make_request d) = Inr result"
  shows "post w request_data =
           (Inr \<lparr> status_code = 200, data = result \<rparr>, [make_request d])"
  using assms by (simp add: post_def py_get_def HTTP_200_OK_def)

theorem classify_success_passthrough_witness:
  "post world_three request_printer =
     (Inr \<lparr> status_code = 200,
            data = JObj [(''suggested_category'', JStr ''spam''),
                         (''suggested_priority'', JStr ''high''),
                         (''confidence'', JStr ''low'')] \<rparr>,
      [make_request (JStr ''The printer is on fire'')])"
  using classify_success_passthrough [of request_printer
      "[(''description'', JStr ''The printer is on fire'')]" "JStr ''The printer is on fire''"
      world_three "''sk-test''" parsed_three]
  by (simp add: request_printer_def world_three_def parsed_three_def OpenAI_def try_body_def)

section \<open>The list operation: filters and order\<close>

lemma icontains_iff: "icontains field s = ci_substring s field"
  by (simp add: icontains_def ci_substring_def sublist_def)

lemma filter_if_eq:
  "filter_if param cond qs = filter (\<lambda>t. \<forall>v. supplied param v \<longrightarrow> cond v t) qs"
  by (cases param) (auto simp: filter_if_def supplied_def)

lemma get_queryset_filter:
  "get_queryset qp ts = filter (satisfies_filters qp) (objects_all ts)"
  unfolding get_queryset_def Let_def filter_if_eq filter_filter satisfies_filters_def
    icontains_iff
  by (rule filter_cong) auto

lemma objects_all_sorted:
  "sorted_wrt (\<lambda>a b. created_at b \<le> created_at a) (objects_all ts)"
proof -
  have "sorted (map (\<lambda>t. - created_at t) (objects_all ts))"
    unfolding objects_all_def by (rule sorted_sort_key)
  then show ?thesis by (simp add: sorted_map)
qed

lemma mset_objects_all: "mset (objects_all ts) = mset ts"
  by (simp add: objects_all_def)

lemma filter_if_sorted:
  "sorted_wrt R qs \<Longrightarrow> sorted_wrt R (filter_if param cond qs)"
  by (cases param) (simp_all add: filter_if_def sorted_wrt_filter)

lemma sample_objects_all:
  "objects_all [ticket_refund, ticket_login, ticket_order] =
     [ticket_login, ticket_order, ticket_refund]"
  by (simp add: objects_all_def ticket_refund_def ticket_login_def ticket_order_def)

lemma sample_search_refund:
  "satisfies_filters search_refund ticket_refund"
  "satisfies_filters search_refund ticket_order"
  "\<not> satisfies_filters search_refund ticket_login"
  by (simp_all add: satisfies_filters_def supplied_def search_refund_def
      ticket_refund_def ticket_login_def ticket_order_def
      flip: icontains_iff)
    (simp_all add: icontains_def ascii_lower_def sublist_code(3))

text \<open>
  Claim C3, as stated, has every supplied category, priority or status value that matches
  no ticket give zero rows. The request \<^verbatim>\<open>?category=\<close> supplies the empty string, which
  is the category of no ticket, and the list still returns the ticket: the guard
  \<^verbatim>\<open>if category:\<close> takes the empty string for an absent parameter.
\<close>

theorem list_blank_category_counterexample:
  "q_category category_blank = Some []
   \<and> [] \<notin> category ` set [ticket_login]
   \<and> get_queryset category_blank [ticket_login] = [ticket_login]"
  by (simp add: category_blank_def ticket_login_def get_queryset_def filter_if_def
      objects_all_def)

text \<open>
  Claim C3, amended. For every ticket set and every combination of the four parameters, a
  parameter counting as supplied when it is present and not the empty string: the list
  operation returns exactly the tickets that satisfy all supplied filters (as a list, the
  ordered listing filtered; as a multiset, the ticket set filtered), the search being
  satisfied exactly by the tickets that have the string as a case-insensitive substring of
  the title or of the description; and a supplied category, priority or status that no
  ticket has gives no rows.
\<close>

theorem list_filters:
  "get_queryset qp ts = filter (satisfies_filters qp) (objects_all ts)
   \<and> mset (get_queryset qp ts) = filter_mset (satisfies_filters qp) (mset ts)
   \<and> (\<forall>v. supplied (q_category qp) v \<and> v \<notin> category ` set ts \<longrightarrow> get_queryset qp ts = [])
   \<and> (\<forall>v. supplied (q_priority qp) v \<and> v \<notin> priority ` set ts \<longrightarrow> get_queryset qp ts = [])
   \<and> (\<forall>v. supplied (q_status qp) v \<and> v \<notin> status ` set ts \<longrightarrow> get_queryset qp ts = [])"
proof -
  have eq: "get_queryset qp ts = filter (satisfies_filters qp) (objects_all ts)"
    by (rule get_queryset_filter)
  have set_eq: "set (objects_all ts) = set ts"
    by (simp add: objects_all_def)
  have "mset (get_queryset qp ts) = filter_mset (satisfies_filters qp) (mset ts)"
    by (simp add: eq mset_objects_all)
  moreover have "get_queryset qp ts = []"
    if "supplied (q_category qp) v" "v \<notin> category ` set ts" for v
    using that by (auto simp: eq filter_empty_conv set_eq satisfies_filters_def)
  moreover have "get_queryset qp ts = []"
    if "supplied (q_priority qp) v" "v \<notin> priority ` set ts" for v
    using that by (auto simp: eq filter_empty_conv set_eq satisfies_filters_def)
  moreover have "get_queryset qp ts = []"
    if "supplied (q_status qp) v" "v \<notin> status ` set ts" for v
    using that by (auto simp: eq filter_empty_conv set_eq satisfies_filters_def)
  ultimately show ?thesis using eq by blast
qed

theorem list_filters_witness:
  "get_queryset search_refund [ticket_refund, ticket_login, ticket_order] =
     [ticket_order, ticket_refund]
   \<and> get_queryset category_hardware [ticket_refund, ticket_login, ticket_order] = []"
proof -
  let ?ts = "[ticket_refund, ticket_login, ticket_order]"
  have "get_queryset search_refund ?ts = filter (satisfies_filters search_refund) (objects_all ?ts)"
    using list_filters [of search_refund ?ts] by blast
  then have first: "get_queryset search_refund ?ts = [ticket_order, ticket_refund]"
    by (simp add: sample_objects_all sample_search_refund)
  have "supplied (q_category category_hardware) ''hardware''"
    by (simp add: supplied_def category_hardware_def)
  moreover have "''hardware'' \<notin> category ` set ?ts"
    by (simp add: ticket_refund_def ticket_login_def ticket_order_def)
  ultimately have "get_queryset category_hardware ?ts = []"
    using list_filters [of category_hardware ?ts] by blast
  with first show ?thesis by simp
qed

text \<open>
  Claim C9. With no parameter the list operation returns the whole ticket set (every ticket
  as often as it is stored), and with any parameters its result is ordered by
  \<^verbatim>\<open>created_at\<close>, descending.
\<close>

theorem list_order:
  "mset (get_queryset no_params ts) = mset ts
   \<and> sorted_wrt (\<lambda>a b. created_at b \<le> created_at a) (get_queryset qp ts)"
proof -
  have "get_queryset no_params ts = objects_all ts"
    by (simp add: get_queryset_def no_params_def filter_if_def)
  then have "mset (get_queryset no_params ts) = mset ts"
    by (simp add: mset_objects_all)
  moreover have "sorted_wrt (\<lambda>a b. created_at b \<le> created_at a) (get_queryset qp ts)"
    unfolding get_queryset_def Let_def
    by (intro filter_if_sorted objects_all_sorted)
  ultimately show ?thesis by simp
qed

theorem list_order_witness:
  "mset (get_queryset no_params [ticket_refund, ticket_login, ticket_order]) =
     mset [ticket_refund, ticket_login, ticket_order]
   \<and> sorted_wrt (\<lambda>a b. created_at b \<le> created_at a)
       (get_queryset search_refund [ticket_refund, ticket_login, ticket_order])"
  using list_order [of "[ticket_refund, ticket_login, ticket_order]" search_refund]
  by simp

section \<open>Float division and rounding\<close>

text \<open>
  The rounded mantissa is within one half of the scaled quotient, and the scaled quotient
  lies in \<open>[2 ^ 52, 2 ^ 53)\<close>: the result of \<open>fl_pos\<close> is a value of 53 bits of precision
  nearest to the quotient, with a relative error of at most \<open>2 ^ - 53\<close>.
\<close>

lemma round_div_bound:
  assumes "0 < d"
  shows "\<bar>2 * (round_div n d * d - n)\<bar> \<le> d"
proof -
  define f r where "f = n div d" and "r = n mod d"
  have n: "n = f * d + r" by (simp add: f_def r_def)
  have r: "0 \<le> r" "r < d" using assms by (simp_all add: r_def)
  show ?thesis
    unfolding round_div_def Let_def f_def[symmetric] r_def[symmetric]
    using n r by (auto simp: algebra_simps)
qed

lemma round_div_err:
  assumes "0 < d"
  shows "\<bar>of_int (round_div n d) - (of_int n :: rat) / of_int d\<bar> \<le> 1 / 2"
proof -
  have "\<bar>of_int (2 * (round_div n d * d - n)) :: rat\<bar> \<le> of_int d"
    using round_div_bound [OF assms, of n] by (metis of_int_abs of_int_le_iff)
  moreover have "(of_int (2 * (round_div n d * d - n)) :: rat) =
      2 * of_int d * (of_int (round_div n d) - of_int n / of_int d)"
    using assms by (simp add: field_simps)
  ultimately have "\<bar>2 * of_int d * (of_int (round_div n d) - (of_int n :: rat) / of_int d)\<bar> \<le> of_int d"
    by simp
  then have "2 * of_int d * \<bar>of_int (round_div n d) - (of_int n :: rat) / of_int d\<bar> \<le> of_int d"
    using assms by (simp add: abs_mult)
  then show ?thesis using assms by (simp add: field_simps)
qed

lemma two_powi_split: "(2::rat) powi s = 2 ^ nat s / 2 ^ nat (- s)"
  by (cases "0 \<le> s") (simp_all add: power_int_def field_simps)

lemma bitlen_powi:
  assumes "0 < a"
  shows "(2::rat) powi (bitlen a - 1) \<le> of_int a" and "(of_int a :: rat) < 2 powi (bitlen a)"
proof -
  from assms have b1: "1 \<le> bitlen a" by (auto simp: bitlen_alt_def)
  from bitlen_bounds [OF assms]
  have lo: "2 ^ nat (bitlen a - 1) \<le> a" and hi: "a < 2 ^ nat (bitlen a)" by simp_all
  have "(of_int (2 ^ nat (bitlen a - 1)) :: rat) \<le> of_int a"
    using lo by (simp only: of_int_le_iff)
  then show "(2::rat) powi (bitlen a - 1) \<le> of_int a"
    using b1 by (simp add: power_int_def)
  have "(of_int a :: rat) < of_int (2 ^ nat (bitlen a))"
    using hi by (simp only: of_int_less_iff)
  then show "(of_int a :: rat) < 2 powi (bitlen a)"
    using b1 by (simp add: power_int_def)
qed

lemma fl_shift_bounds:
  assumes "0 < a" and "0 < b"
  shows "of_int b * 2 ^ 52 \<le> (of_int a :: rat) * 2 powi (fl_shift a b)"
    and "(of_int a :: rat) * 2 powi (fl_shift a b) < of_int b * 2 ^ 53"
proof -
  define s0 where "s0 = 53 + bitlen b - bitlen a"
  define A B :: rat where "A = of_int a" and "B = of_int b"
  have AB: "0 < A" "0 < B" using assms by (simp_all add: A_def B_def)
  have cond: "(b * 2 ^ 53 * 2 ^ nat (- s0) \<le> a * 2 ^ nat s0) = (B * 2 ^ 53 \<le> A * 2 powi s0)"
  proof -
    have "(b * 2 ^ 53 * 2 ^ nat (- s0) \<le> a * 2 ^ nat s0) =
          ((of_int (b * 2 ^ 53 * 2 ^ nat (- s0)) :: rat) \<le> of_int (a * 2 ^ nat s0))"
      by (simp only: of_int_le_iff)
    also have "\<dots> = (B * 2 ^ 53 \<le> A * 2 powi s0)"
      by (simp add: two_powi_split A_def B_def field_simps)
    finally show ?thesis .
  qed
  have "A * 2 powi s0 \<ge> 2 powi (bitlen a - 1) * 2 powi s0"
    using bitlen_powi(1) [OF assms(1)] by (simp add: A_def)
  also have "2 powi (bitlen a - 1) * 2 powi s0 = (2::rat) powi (52 + bitlen b)"
    by (simp add: s0_def flip: power_int_add)
  also have "\<dots> = 2 ^ 52 * 2 powi (bitlen b)"
    by (simp add: power_int_add)
  finally have lo0: "2 ^ 52 * 2 powi (bitlen b) \<le> A * 2 powi s0" .
  have lo: "B * 2 ^ 52 < A * 2 powi s0"
  proof -
    have "B * 2 ^ 52 < 2 powi (bitlen b) * 2 ^ 52"
      using bitlen_powi(2) [OF assms(2)] by (simp add: B_def)
    with lo0 show ?thesis by (simp add: mult.commute)
  qed
  have "A * 2 powi s0 < 2 powi (bitlen a) * 2 powi s0"
    using bitlen_powi(2) [OF assms(1)] by (simp add: A_def)
  also have "2 powi (bitlen a) * 2 powi s0 = (2::rat) powi (54 + (bitlen b - 1))"
    by (simp add: s0_def flip: power_int_add)
  also have "\<dots> = 2 ^ 54 * 2 powi (bitlen b - 1)"
    by (subst power_int_add) simp_all
  finally have hi0: "A * 2 powi s0 < 2 ^ 54 * 2 powi (bitlen b - 1)" .
  have hi: "A * 2 powi s0 < B * 2 ^ 54"
  proof -
    have "2 ^ 54 * 2 powi (bitlen b - 1) \<le> 2 ^ 54 * B"
      using bitlen_powi(1) [OF assms(2)] by (simp add: B_def)
    with hi0 show ?thesis by (simp add: mult.commute)
  qed
  have half: "A * 2 powi (s0 - 1) = A * 2 powi s0 / 2"
    by (simp add: power_int_diff)
  have shift: "fl_shift a b = (if B * 2 ^ 53 \<le> A * 2 powi s0 then s0 - 1 else s0)"
    unfolding fl_shift_def Let_def s0_def[symmetric] cond ..
  define P where "P = A * 2 powi s0"
  have lo': "B * 2 ^ 52 < P" and hi': "P < B * 2 ^ 54"
    using lo hi by (simp_all add: P_def)
  have Q: "A * 2 powi (s0 - 1) = P / 2"
    by (simp add: half P_def)
  have res: "of_int a * 2 powi (fl_shift a b) = (if B * 2 ^ 53 \<le> P then P / 2 else P)"
    by (simp add: shift Q A_def[symmetric]) (simp add: P_def)
  show "of_int b * 2 ^ 52 \<le> (of_int a :: rat) * 2 powi (fl_shift a b)"
    unfolding res B_def[symmetric] using lo' by auto
  show "(of_int a :: rat) * 2 powi (fl_shift a b) < of_int b * 2 ^ 53"
    unfolding res B_def[symmetric] using hi' by auto
qed

lemma fl_pos_mantissa:
  assumes "0 < a" and "0 < b"
  defines "s \<equiv> fl_shift a b"
  defines "m \<equiv> round_div (a * 2 ^ nat s) (b * 2 ^ nat (- s))"
  shows "fl_pos a b = of_int m / 2 powi s"
    and "\<bar>of_int m - of_int a / of_int b * 2 powi s\<bar> \<le> (1 / 2 :: rat)"
proof -
  show "fl_pos a b = of_int m / 2 powi s"
    by (simp add: fl_pos_def Let_def s_def m_def two_powi_split)
  have d: "0 < b * 2 ^ nat (- s)" using assms(2) by simp
  have "(of_int (a * 2 ^ nat s) :: rat) / of_int (b * 2 ^ nat (- s)) =
        of_int a / of_int b * 2 powi s"
    by (simp add: two_powi_split)
  with round_div_err [OF d, of "a * 2 ^ nat s"]
  show "\<bar>of_int m - of_int a / of_int b * 2 powi s\<bar> \<le> (1 / 2 :: rat)"
    by (simp add: m_def)
qed

lemma fl_pos_err:
  assumes "0 < a" and "0 < b"
  shows "\<bar>fl_pos a b - of_int a / of_int b\<bar> \<le> of_int a / of_int b / 2 ^ 53"
proof -
  define s where "s = fl_shift a b"
  define m where "m = round_div (a * 2 ^ nat s) (b * 2 ^ nat (- s))"
  define q :: rat where "q = of_int a / of_int b"
  define p :: rat where "p = 2 powi s"
  have p: "0 < p" by (simp add: p_def)
  have q: "0 < q" using assms by (simp add: q_def)
  have fl: "fl_pos a b = of_int m / p"
    using fl_pos_mantissa(1) [OF assms] by (simp add: s_def m_def p_def)
  have err: "\<bar>of_int m - q * p\<bar> \<le> 1 / 2"
    using fl_pos_mantissa(2) [OF assms] by (simp add: s_def m_def p_def q_def)
  have "of_int b * 2 ^ 52 \<le> (of_int a :: rat) * p"
    using fl_shift_bounds(1) [OF assms] by (simp add: p_def s_def)
  then have lo: "2 ^ 52 \<le> q * p"
    using assms by (simp add: q_def field_simps)
  have "\<bar>fl_pos a b - q\<bar> = \<bar>of_int m - q * p\<bar> / p"
    using p by (simp add: fl field_simps flip: abs_of_pos)
  also have "\<dots> \<le> (1 / 2) / p"
    using err p by (intro divide_right_mono) simp_all
  also have "\<dots> \<le> q / 2 ^ 53"
    using lo p by (simp add: field_simps)
  finally show ?thesis by (simp add: q_def)
qed

lemma round_div_exact: "0 < d \<Longrightarrow> round_div (k * d) d = k"
  by (simp add: round_div_def)

lemma fl_pos_exact:
  assumes "0 < k" and "k < 2 ^ 53" and "0 < b"
  shows "fl_pos (k * b) b = of_int k"
proof -
  define s where "s = fl_shift (k * b) b"
  have kb: "0 < k * b" using assms by simp
  have "of_int b * 2 ^ 52 \<le> (of_int (k * b) :: rat) * 2 powi s"
    using fl_shift_bounds(1) [OF kb assms(3)] by (simp add: s_def)
  then have lo: "2 ^ 52 \<le> (of_int k :: rat) * 2 powi s"
    using assms(3) by simp
  have "0 \<le> s"
  proof (rule ccontr)
    assume "\<not> 0 \<le> s"
    then have "s \<le> - 1" by simp
    then have "(2::rat) powi s \<le> 2 powi (- 1)"
      by (intro power_int_increasing) simp_all
    then have "(of_int k :: rat) * 2 powi s \<le> of_int k * (1 / 2)"
      using assms(1) by (intro mult_left_mono) (simp_all add: power_int_minus)
    with lo have "(2 ^ 53 :: rat) \<le> of_int k" by simp
    then have "(of_int (2 ^ 53) :: rat) \<le> of_int k" by simp
    then have "2 ^ 53 \<le> k" by (simp only: of_int_le_iff)
    with assms(2) show False by simp
  qed
  then have "nat (- s) = 0" by simp
  moreover have "round_div (k * b * 2 ^ nat s) b = k * 2 ^ nat s"
    using round_div_exact [OF assms(3), of "k * 2 ^ nat s"] by (simp add: mult.assoc mult.left_commute mult.commute)
  ultimately show ?thesis
    by (simp add: fl_pos_def Let_def s_def[symmetric])
qed


lemma fl_quot_err:
  assumes "0 \<le> a" and "0 < b"
  shows "\<bar>fl_quot a b - of_int a / of_int b\<bar> \<le> of_int a / of_int b / 2 ^ 53"
proof (cases "a = 0")
  case True
  then show ?thesis by (simp add: fl_quot_def)
next
  case False
  with assms have "0 < a" by simp
  with assms(2) fl_pos_err [of a b] show ?thesis by (simp add: fl_quot_def)
qed

lemma py_round1_tenths:
  obtains t where "py_round1 x = fl_quot t 10" and "\<bar>of_int t - 10 * x\<bar> \<le> 1 / 2"
proof -
  obtain n d where nd: "quotient_of x = (n, d)" by (cases "quotient_of x")
  then have d: "0 < d" and x: "x = of_int n / of_int d"
    by (simp_all add: quotient_of_denom_pos quotient_of_div)
  have "\<bar>of_int (round_div (10 * n) d) - (of_int (10 * n) :: rat) / of_int d\<bar> \<le> 1 / 2"
    using d by (rule round_div_err)
  then have "\<bar>of_int (round_div (10 * n) d) - 10 * x\<bar> \<le> 1 / 2"
    by (simp add: x)
  moreover have "py_round1 x = fl_quot (round_div (10 * n) d) 10"
    by (simp add: py_round1_def nd)
  ultimately show ?thesis using that by blast
qed

lemma round1_quotient_accuracy:
  assumes "0 \<le> a" and "a \<le> 2 ^ 48" and "0 < b"
  shows "\<exists>t. py_round1 (fl_quot a b) = fl_quot t 10 \<and>
             \<bar>of_int t / 10 - of_int a / of_int b\<bar> \<le> (1 / 20 :: rat)"
proof -
  define q :: rat where "q = of_int a / of_int b"
  define x where "x = fl_quot a b"
  obtain t where t: "py_round1 x = fl_quot t 10" and tx: "\<bar>of_int t - 10 * x\<bar> \<le> 1 / 2"
    by (rule py_round1_tenths)
  have xq: "\<bar>x - q\<bar> \<le> q / 2 ^ 53"
    unfolding x_def q_def using assms(1,3) by (rule fl_quot_err)
  have B: "(0::rat) < of_int b" using assms(3) by simp
  have "\<bar>10 * (x - q)\<bar> = \<bar>10\<bar> * \<bar>x - q\<bar>"
    by (rule abs_mult)
  then have "\<bar>10 * x - 10 * q\<bar> = 10 * \<bar>x - q\<bar>"
    by (simp add: right_diff_distrib)
  moreover have "\<bar>of_int t - 10 * q\<bar> \<le> \<bar>of_int t - 10 * x\<bar> + \<bar>10 * x - 10 * q\<bar>"
    using abs_triangle_ineq [of "of_int t - 10 * x" "10 * x - 10 * q"] by simp
  ultimately have "\<bar>of_int t - 10 * q\<bar> \<le> \<bar>of_int t - 10 * x\<bar> + 10 * \<bar>x - q\<bar>"
    by simp
  with tx xq have up: "\<bar>of_int t - 10 * q\<bar> \<le> 1 / 2 + 10 * (q / 2 ^ 53)"
    by linarith
  define D where "D = 2 * t * b - 20 * a"
  have Dq: "(of_int D :: rat) = 2 * of_int b * (of_int t - 10 * q)"
    using B by (simp add: D_def q_def field_simps)
  have "\<bar>D\<bar> \<le> b"
  proof (rule ccontr)
    assume "\<not> \<bar>D\<bar> \<le> b"
    then have "b + 1 \<le> \<bar>D\<bar>" by simp
    then have "(of_int (b + 1) :: rat) \<le> of_int \<bar>D\<bar>" by (simp only: of_int_le_iff)
    then have "(of_int b :: rat) + 1 \<le> \<bar>2 * of_int b * (of_int t - 10 * q)\<bar>"
      by (simp add: Dq)
    also have "\<dots> = 2 * of_int b * \<bar>of_int t - 10 * q\<bar>"
      using B by (simp add: abs_mult)
    also have "\<dots> \<le> 2 * of_int b * (1 / 2 + 10 * (q / 2 ^ 53))"
      using up B by (intro mult_left_mono) simp_all
    also have "\<dots> = of_int b + 20 * of_int a / 2 ^ 53"
      using B by (simp add: q_def field_simps)
    finally have "(2 ^ 53 :: rat) \<le> 20 * of_int a" by (simp add: field_simps)
    then have "(of_int (2 ^ 53) :: rat) \<le> of_int (20 * a)" by simp
    then have "2 ^ 53 \<le> 20 * a" by (simp only: of_int_le_iff)
    with assms(2) show False by simp
  qed
  then have "(of_int \<bar>D\<bar> :: rat) \<le> of_int b" by (simp only: of_int_le_iff)
  then have "2 * of_int b * \<bar>of_int t - 10 * q\<bar> \<le> of_int b"
    using B by (simp add: Dq abs_mult)
  then have "\<bar>of_int t - 10 * q\<bar> \<le> 1 / 2"
    using B by (simp add: field_simps)
  then have "\<bar>(of_int t - 10 * q) / 10\<bar> \<le> 1 / 20" by simp
  then have "\<bar>of_int t / 10 - q\<bar> \<le> 1 / 20" by (simp add: diff_divide_distrib)
  with t show ?thesis unfolding x_def q_def by blast
qed

lemma fl_quot_int:
  assumes "0 \<le> k" and "k < 2 ^ 53" and "0 < b"
  shows "fl_quot (k * b) b = of_int k"
proof (cases "k = 0")
  case True
  then show ?thesis by (simp add: fl_quot_def)
next
  case False
  with assms have k: "0 < k" by simp
  then have "0 < k * b" using assms(3) by simp
  then show ?thesis
    using fl_pos_exact [OF k assms(2,3)] assms(3) by (simp add: fl_quot_def)
qed

lemma py_round1_int:
  assumes "0 \<le> k" and "k < 2 ^ 53"
  shows "py_round1 (of_int k) = of_int k"
proof -
  have "round_div (10 * k) 1 = 10 * k" by (simp add: round_div_def)
  then show ?thesis
    using fl_quot_int [OF assms, of 10] by (simp add: py_round1_def mult.commute)
qed

lemma fl_quot_zero: "fl_quot 0 b = 0"
  by (simp add: fl_quot_def)

lemma py_round1_zero: "py_round1 0 = 0"
  by (simp add: py_round1_def round_div_def fl_quot_zero)

lemma fl_quot_2_53: "fl_quot (2 ^ 53) 1 = 2 ^ 53"
  by code_simp

lemma py_round1_2_53: "py_round1 (2 ^ 53) = 2 ^ 53"
  by code_simp

text \<open>
  \<open>2 ^ 53 + 1 = 9007199254740993\<close> is the first count that no float holds: the division by
  one day already gives \<open>2 ^ 53 = 9007199254740992\<close>. No table has that many rows.
\<close>

lemma round1_many: "py_round1 (fl_quot 9007199254740993 1) = 9007199254740992"
  by code_simp

text \<open>
  Ties are decided on the float that the division gives, not on the exact quotient: 2 tickets
  in 40 days and 3 tickets in 20 days both give 0.1, 1 ticket in 4 days gives 0.2.
\<close>

lemma round1_2_40: "py_round1 (fl_quot 2 40) = fl_quot 1 10"
  by code_simp

lemma round1_3_20: "py_round1 (fl_quot 3 20) = fl_quot 1 10"
  by code_simp

lemma round1_1_4: "py_round1 (fl_quot 1 4) = fl_quot 2 10"
  by code_simp

lemma fl_quot_1_10: "fl_quot 1 10 = 3602879701896397 / 36028797018963968"
  by code_simp

section \<open>The stats operation: its result\<close>

lemma fold_min_Min:
  "fold (\<lambda>u m. min (created_at u) m) rest a = Min (insert a (created_at ` set rest))"
proof -
  have "fold (\<lambda>u m. min (created_at u) m) rest a = fold min (map created_at rest) a"
    by (simp add: fold_map comp_def)
  also have "\<dots> = Min (set (a # map created_at rest))"
    by (simp only: Min.set_eq_fold)
  finally show ?thesis by simp
qed

lemma first_ticket_earliest:
  "none_or (bs_first_ticket (aggregate ts)) now = earliest_created_at now ts"
  by (cases ts) (simp_all add: aggregate_def none_or_def earliest_created_at_def fold_min_Min)

lemma stats_Inr:
  "stats now ts =
     Inr \<lparr> total_tickets = length ts,
           open_tickets = length (filter (\<lambda>t. status t = ''open'') ts),
           avg_tickets_per_day = py_round1 (fl_quot (int (length ts)) (days_active now ts)),
           priority_breakdown =
             fill_breakdown (map (\<lambda>k. (k, 0)) PRIORITY_KEYS) (values_count priority ts),
           category_breakdown =
             fill_breakdown (map (\<lambda>k. (k, 0)) CATEGORY_KEYS) (values_count category ts) \<rparr>"
proof -
  have days: "max (timedelta_days (now - none_or (bs_first_ticket (aggregate ts)) now)) 1 =
      days_active now ts"
    by (simp add: first_ticket_earliest days_active_def timedelta_days_def max.commute)
  have "days_active now ts \<noteq> 0"
    by (simp add: days_active_def)
  moreover have "map (\<lambda>p. (fst p, 0::nat)) PRIORITY_CHOICES = map (\<lambda>k. (k, 0)) PRIORITY_KEYS"
    by (simp add: PRIORITY_CHOICES_def PRIORITY_KEYS_def)
  moreover have "map (\<lambda>c. (fst c, 0::nat)) CATEGORY_CHOICES = map (\<lambda>k. (k, 0)) CATEGORY_KEYS"
    by (simp add: CATEGORY_CHOICES_def CATEGORY_KEYS_def)
  moreover have "bs_total_tickets (aggregate ts) = length ts"
    and "bs_open_tickets (aggregate ts) = length (filter (\<lambda>t. status t = ''open'') ts)"
    by (simp_all add: aggregate_def)
  ultimately show ?thesis
    unfolding stats_def Let_def days by (simp add: py_truediv_def count_or_def)
qed

lemma days_active_positive: "1 \<le> days_active now ts"
  by (simp add: days_active_def)

lemma days_active_empty: "days_active now [] = 1"
  by (simp add: days_active_def earliest_created_at_def)

lemma days_active_recent:
  assumes "ts \<noteq> []" and "\<forall>t \<in> set ts. now - created_at t < usec_per_day"
  shows "days_active now ts = 1"
proof -
  have "Min (created_at ` set ts) \<in> created_at ` set ts"
    using assms(1) by (intro Min_in) simp_all
  then obtain t where "t \<in> set ts" and "Min (created_at ` set ts) = created_at t"
    by auto
  with assms have "now - earliest_created_at now ts < usec_per_day"
    by (simp add: earliest_created_at_def)
  then have "(now - earliest_created_at now ts) div usec_per_day \<le> 0"
    using zdiv_mono1 [of "now - earliest_created_at now ts" "usec_per_day - 1" usec_per_day]
    by (simp add: usec_per_day_def)
  then show ?thesis by (simp add: days_active_def)
qed

section \<open>The breakdowns\<close>

lemma fill_breakdown_keys:
  "fst ` set (fill_breakdown d items) = fst ` set d \<union> fst ` set items"
  by (induction d items rule: fill_breakdown.induct) (auto simp: AList.dom_update)

lemma fill_breakdown_distinct:
  "distinct (map fst d) \<Longrightarrow> distinct (map fst (fill_breakdown d items))"
  by (induction d items rule: fill_breakdown.induct) (auto simp: AList.distinct_update)

lemma fill_breakdown_map_of:
  "distinct (map fst items) \<Longrightarrow>
   map_of (fill_breakdown d items) k =
     (case map_of items k of Some c \<Rightarrow> Some c | None \<Rightarrow> map_of d k)"
proof (induction d items rule: fill_breakdown.induct)
  case (1 d)
  then show ?case by simp
next
  case (2 d k' c items)
  then have "map_of items k' = None"
    by (simp add: map_of_eq_None_iff)
  with 2 show ?case
    by (auto simp: AList.update_conv' split: option.splits)
qed

lemma fill_breakdown_same_keys:
  "fst ` set items \<subseteq> fst ` set d \<Longrightarrow> map fst (fill_breakdown d items) = map fst d"
proof (induction d items rule: fill_breakdown.induct)
  case (1 d)
  then show ?case by simp
next
  case (2 d k c items)
  have "map fst (AList.update k c d) = map fst d"
    using 2(2) by (simp add: AList.update_keys map_of_eq_None_iff)
  moreover have "fst ` set (AList.update k c d) = fst ` set d"
    using 2(2) by (auto simp: AList.dom_update)
  ultimately show ?case using 2 by simp
qed

lemma map_of_values_count:
  "map_of (values_count f ts) k =
     (if k \<in> f ` set ts then Some (length (filter (\<lambda>t. f t = k) ts)) else None)"
proof -
  have "map_of (map (\<lambda>k. (k, g k)) ks) k = (if k \<in> set ks then Some (g k) else None)"
    for g :: "string \<Rightarrow> nat" and ks
    by (induction ks) auto
  then show ?thesis by (simp add: values_count_def)
qed

lemma values_count_keys: "fst ` set (values_count f ts) = f ` set ts"
  by (force simp: values_count_def)

lemma values_count_distinct: "distinct (map fst (values_count f ts))"
  by (simp add: values_count_def comp_def)

lemma breakdown_lookup:
  assumes "distinct (map fst d)" and "\<forall>x \<in> set d. snd x = 0"
    and "k \<in> fst ` set d \<union> f ` set ts"
  shows "map_of (fill_breakdown d (values_count f ts)) k =
           Some (length (filter (\<lambda>t. f t = k) ts))"
proof (cases "k \<in> f ` set ts")
  case True
  then show ?thesis
    by (simp add: fill_breakdown_map_of values_count_distinct map_of_values_count)
next
  case False
  with assms(3) obtain v where "(k, v) \<in> set d" by auto
  with assms(1,2) have "map_of d k = Some 0" by auto
  moreover from False have "filter (\<lambda>t. f t = k) ts = []"
    by (auto simp: filter_empty_conv)
  ultimately show ?thesis using False
    by (simp add: fill_breakdown_map_of values_count_distinct map_of_values_count)
qed

lemma length_filter_count: "length (filter (\<lambda>t. f t = k) ts) = count_list (map f ts) k"
  by (induction ts) auto

lemma breakdown_sum:
  assumes "distinct (map fst d)" and "\<forall>x \<in> set d. snd x = 0"
  shows "sum_list (map snd (fill_breakdown d (values_count f ts))) = length ts"
proof -
  let ?al = "fill_breakdown d (values_count f ts)"
  let ?K = "fst ` set d \<union> f ` set ts"
  have dist: "distinct (map fst ?al)"
    using assms(1) by (rule fill_breakdown_distinct)
  then have dal: "distinct ?al" by (simp add: distinct_map)
  have keys: "fst ` set ?al = ?K"
    by (simp add: fill_breakdown_keys values_count_keys)
  have inj: "inj_on fst (set ?al)"
    using dist by (simp add: distinct_map)
  have "sum_list (map snd ?al) = sum snd (set ?al)"
    using dal by (rule sum_list_distinct_conv_sum_set)
  also have "\<dots> = sum (\<lambda>k. count_list (map f ts) k) (fst ` set ?al)"
  proof -
    have "snd x = count_list (map f ts) (fst x)" if "x \<in> set ?al" for x
    proof -
      from that have "fst x \<in> ?K" using keys by (metis imageI)
      then have "map_of ?al (fst x) = Some (length (filter (\<lambda>t. f t = fst x) ts))"
        using assms by (intro breakdown_lookup) auto
      moreover have "map_of ?al (fst x) = Some (snd x)"
        using dist that by simp
      ultimately show ?thesis by (simp add: length_filter_count)
    qed
    then show ?thesis by (simp add: sum.reindex [OF inj])
  qed
  also have "\<dots> = length (map f ts)"
    unfolding keys by (rule sum_count_set) auto
  finally show ?thesis by simp
qed

lemma zero_init:
  "distinct (map fst (map (\<lambda>k. (k, 0::nat)) PRIORITY_KEYS))"
  "distinct (map fst (map (\<lambda>k. (k, 0::nat)) CATEGORY_KEYS))"
  "\<forall>x \<in> set (map (\<lambda>k. (k, 0::nat)) ks). snd x = 0"
  "fst ` (\<lambda>k. (k, 0::nat)) ` set ks = set ks"
  by (auto simp: PRIORITY_KEYS_def CATEGORY_KEYS_def image_iff)

lemma breakdown_all_keys:
  "fst ` set (fill_breakdown (map (\<lambda>k. (k, 0)) ks) (values_count f ts)) = set ks \<union> f ` set ts"
  by (simp add: fill_breakdown_keys values_count_keys zero_init(4))

lemma breakdown_fixed_keys:
  assumes "\<forall>t \<in> set ts. f t \<in> set ks"
  shows "map fst (fill_breakdown (map (\<lambda>k. (k, 0)) ks) (values_count f ts)) = ks"
proof -
  have "fst ` set (values_count f ts) \<subseteq> fst ` set (map (\<lambda>k. (k, 0::nat)) ks)"
    using assms by (auto simp: values_count_keys zero_init(4))
  then have "map fst (fill_breakdown (map (\<lambda>k. (k, 0)) ks) (values_count f ts)) =
      map fst (map (\<lambda>k. (k, 0::nat)) ks)"
    by (rule fill_breakdown_same_keys)
  then show ?thesis by (simp add: comp_def)
qed

lemma breakdown_count:
  assumes "distinct ks" and "k \<in> set ks \<union> f ` set ts"
  shows "map_of (fill_breakdown (map (\<lambda>k. (k, 0)) ks) (values_count f ts)) k =
           Some (length (filter (\<lambda>t. f t = k) ts))"
  using assms by (intro breakdown_lookup) (auto simp: comp_def image_iff)

lemma breakdown_total:
  assumes "distinct ks"
  shows "sum_list (map snd (fill_breakdown (map (\<lambda>k. (k, 0)) ks) (values_count f ts))) =
           length ts"
  using assms by (intro breakdown_sum) (auto simp: comp_def)

lemma keys_distinct: "distinct PRIORITY_KEYS" "distinct CATEGORY_KEYS"
  by (simp_all add: PRIORITY_KEYS_def CATEGORY_KEYS_def)

lemma sample_in_enumerations:
  "\<forall>t \<in> set [ticket_refund, ticket_login, ticket_order]. in_enumerations t"
  by (simp add: in_enumerations_def PRIORITY_KEYS_def CATEGORY_KEYS_def
      ticket_refund_def ticket_login_def ticket_order_def)

section \<open>Stats on the empty ticket set\<close>

text \<open>
  Claim C7. With no tickets at all, whatever the time of the request, stats answers with
  total 0, open 0, average 0, and both breakdowns holding each of their four keys with
  count 0.
\<close>

theorem stats_empty:
  "stats now [] =
     Inr \<lparr> total_tickets = 0, open_tickets = 0, avg_tickets_per_day = 0,
           priority_breakdown =
             [(''low'', 0), (''medium'', 0), (''high'', 0), (''critical'', 0)],
           category_breakdown =
             [(''billing'', 0), (''technical'', 0), (''account'', 0), (''general'', 0)] \<rparr>"
  by (simp add: stats_Inr days_active_empty fl_quot_zero py_round1_zero values_count_def
      PRIORITY_KEYS_def CATEGORY_KEYS_def)

section \<open>The average per day\<close>

text \<open>
  Claim C1. For every ticket set and request time, stats returns the average
  \<^verbatim>\<open>round(total / days_active, 1)\<close>, where the total is the number of all tickets and
  days\_active is the whole days from the earliest creation time of all tickets to the
  request time, at least 1: the window of 30 days enters neither. The division and the
  rounding are those of Python floats; up to \<open>2 ^ 48\<close> tickets the result is the float
  nearest to a number of one decimal place \<open>t / 10\<close> that is nearest to the exact quotient.
  With no tickets, days\_active is 1 and the average is 0.
\<close>

theorem stats_average:
  "\<exists>r. stats now ts = Inr r
     \<and> total_tickets r = length ts
     \<and> avg_tickets_per_day r = py_round1 (fl_quot (int (length ts)) (days_active now ts))
     \<and> (length ts \<le> 2 ^ 48 \<longrightarrow>
          (\<exists>t. avg_tickets_per_day r = fl_quot t 10 \<and>
             \<bar>of_int t / 10 - of_nat (length ts) / of_int (days_active now ts)\<bar>
               \<le> (1 / 20 :: rat)))
     \<and> (ts = [] \<longrightarrow> days_active now ts = 1 \<and> avg_tickets_per_day r = 0)"
proof -
  have acc: "\<exists>t. py_round1 (fl_quot (int (length ts)) (days_active now ts)) = fl_quot t 10 \<and>
      \<bar>of_int t / 10 - of_nat (length ts) / of_int (days_active now ts)\<bar> \<le> (1 / 20 :: rat)"
    if "length ts \<le> 2 ^ 48"
  proof -
    have "int (length ts) \<le> 2 ^ 48" using that by (simp add: of_nat_le_iff [symmetric] del: of_nat_le_iff)
    moreover have "0 < days_active now ts" using days_active_positive [of now ts] by simp
    ultimately show ?thesis
      using round1_quotient_accuracy [of "int (length ts)" "days_active now ts"] by simp
  qed
  have "ts = [] \<longrightarrow> days_active now ts = 1 \<and>
      py_round1 (fl_quot (int (length ts)) (days_active now ts)) = 0"
    by (simp add: days_active_empty fl_quot_zero py_round1_zero)
  with acc show ?thesis by (simp add: stats_Inr days_active_empty fl_quot_zero py_round1_zero)
qed

theorem stats_average_witness:
  "length [ticket_at 11 (day 0), ticket_at 12 (day 39)] \<le> 2 ^ 48
   \<and> days_active (day 40) [ticket_at 11 (day 0), ticket_at 12 (day 39)] = 40
   \<and> (\<exists>r. stats (day 40) [ticket_at 11 (day 0), ticket_at 12 (day 39)] = Inr r
        \<and> total_tickets r = 2
        \<and> avg_tickets_per_day r = 3602879701896397 / 36028797018963968
        \<and> (\<exists>t. avg_tickets_per_day r = fl_quot t 10 \<and> \<bar>of_int t / 10 - 2 / 40\<bar> \<le> (1 / 20 :: rat)))
   \<and> (\<exists>r. stats (day 40) [] = Inr r \<and> avg_tickets_per_day r = 0)"
proof -
  let ?ts = "[ticket_at 11 (day 0), ticket_at 12 (day 39)]"
  have days: "days_active (day 40) ?ts = 40"
    by (simp add: days_active_def earliest_created_at_def ticket_at_def day_def usec_per_day_def)
  have len: "length ?ts \<le> 2 ^ 48" by simp
  obtain r where r: "stats (day 40) ?ts = Inr r" "total_tickets r = length ?ts"
      "avg_tickets_per_day r = py_round1 (fl_quot (int (length ?ts)) (days_active (day 40) ?ts))"
      "length ?ts \<le> 2 ^ 48 \<longrightarrow>
          (\<exists>t. avg_tickets_per_day r = fl_quot t 10 \<and>
             \<bar>of_int t / 10 - of_nat (length ?ts) / of_int (days_active (day 40) ?ts)\<bar>
               \<le> (1 / 20 :: rat))"
    using stats_average [of "day 40" ?ts] by blast
  from r(3) have avg: "avg_tickets_per_day r = 3602879701896397 / 36028797018963968"
    by (simp add: days round1_2_40 fl_quot_1_10)
  from r(4) len have "\<exists>t. avg_tickets_per_day r = fl_quot t 10 \<and>
      \<bar>of_int t / 10 - 2 / 40\<bar> \<le> (1 / 20 :: rat)"
    by (simp add: days)
  with r(1,2) avg have first: "\<exists>r. stats (day 40) ?ts = Inr r
        \<and> total_tickets r = 2
        \<and> avg_tickets_per_day r = 3602879701896397 / 36028797018963968
        \<and> (\<exists>t. avg_tickets_per_day r = fl_quot t 10 \<and> \<bar>of_int t / 10 - 2 / 40\<bar> \<le> (1 / 20 :: rat))"
    by auto
  have "\<exists>r. stats (day 40) [] = Inr r \<and> avg_tickets_per_day r = 0"
    using stats_average [of "day 40" "[]"] by auto
  with first days len show ?thesis by blast
qed

section \<open>The average when every ticket is new\<close>

text \<open>
  Claim C8. For every \<open>N \<ge> 1\<close>: when all \<open>N\<close> tickets were created less than one whole day
  before the request time (at the request time, in particular), the whole days floor to 0,
  days\_active is clamped to 1, and the average that stats returns is \<open>N\<close>. The side
  condition \<open>N \<le> 2 ^ 53\<close> is the range in which a float holds every count, far above the
  number of rows of any table.
\<close>

theorem stats_average_all_now:
  assumes "ts \<noteq> []"
    and "\<forall>t \<in> set ts. now - created_at t < usec_per_day"
    and "length ts \<le> 2 ^ 53"
  shows "days_active now ts = 1
         \<and> (\<exists>r. stats now ts = Inr r \<and> avg_tickets_per_day r = of_nat (length ts))"
proof -
  have days: "days_active now ts = 1"
    using assms(1,2) by (rule days_active_recent)
  have "py_round1 (fl_quot (int (length ts)) 1) = of_nat (length ts)"
  proof (cases "length ts = 2 ^ 53")
    case True
    then have "int (length ts) = 2 ^ 53" and "(of_nat (length ts) :: rat) = 2 ^ 53"
      by simp_all
    then show ?thesis by (simp only: fl_quot_2_53 py_round1_2_53)
  next
    case False
    with assms(3) have "length ts < 2 ^ 53" by simp
    then have lt: "int (length ts) < 2 ^ 53"
      by (simp add: of_nat_less_iff [symmetric] del: of_nat_less_iff)
    have "fl_quot (int (length ts) * 1) 1 = of_int (int (length ts))"
      using lt by (intro fl_quot_int) simp_all
    moreover have "py_round1 (of_int (int (length ts))) = of_int (int (length ts))"
      using lt by (intro py_round1_int) simp_all
    ultimately show ?thesis by simp
  qed
  with days show ?thesis by (simp add: stats_Inr)
qed

theorem stats_average_all_now_witness:
  "days_active (day 7) [ticket_at 11 (day 7), ticket_at 12 (day 7), ticket_at 13 (day 7)] = 1
   \<and> (\<exists>r. stats (day 7) [ticket_at 11 (day 7), ticket_at 12 (day 7), ticket_at 13 (day 7)] = Inr r
        \<and> avg_tickets_per_day r = 3)"
  using stats_average_all_now
    [of "[ticket_at 11 (day 7), ticket_at 12 (day 7), ticket_at 13 (day 7)]" "day 7"]
  by (simp add: ticket_at_def usec_per_day_def)

section \<open>The keys of the breakdowns\<close>

text \<open>
  Claim C4, as stated, has the two breakdowns hold exactly the four fixed keys whatever the
  ticket set contains. A ticket whose priority and category are outside the enumerations (the
  columns are plain strings) adds its values as a fifth key to each breakdown.
\<close>

theorem stats_breakdown_extra_key_counterexample:
  "\<exists>r. stats (day 7) [ticket_urgent] = Inr r
     \<and> priority_breakdown r =
         [(''low'', 0), (''medium'', 0), (''high'', 0), (''critical'', 0), (''urgent'', 1)]
     \<and> category_breakdown r =
         [(''billing'', 0), (''technical'', 0), (''account'', 0), (''general'', 0),
          (''outage'', 1)]"
  by (simp add: stats_Inr values_count_def PRIORITY_KEYS_def CATEGORY_KEYS_def
      ticket_urgent_def)

text \<open>
  Claim C4, amended. For every ticket set, the keys of the priority breakdown are the four
  fixed priority keys together with the priorities that occur in the tickets, each key once,
  and likewise for the categories: so for every ticket set whose priorities and categories
  are members of the enumerations the breakdowns have exactly the four fixed keys each, in
  the fixed order. A fixed key that no ticket has is reported with count 0.
\<close>

theorem stats_breakdown_keys:
  "\<exists>r. stats now ts = Inr r
     \<and> set (map fst (priority_breakdown r)) = set PRIORITY_KEYS \<union> priority ` set ts
     \<and> set (map fst (category_breakdown r)) = set CATEGORY_KEYS \<union> category ` set ts
     \<and> distinct (map fst (priority_breakdown r))
     \<and> distinct (map fst (category_breakdown r))
     \<and> ((\<forall>t \<in> set ts. in_enumerations t) \<longrightarrow>
          map fst (priority_breakdown r) = PRIORITY_KEYS
          \<and> map fst (category_breakdown r) = CATEGORY_KEYS)
     \<and> (\<forall>k \<in> set PRIORITY_KEYS. k \<notin> priority ` set ts \<longrightarrow>
          map_of (priority_breakdown r) k = Some 0)
     \<and> (\<forall>k \<in> set CATEGORY_KEYS. k \<notin> category ` set ts \<longrightarrow>
          map_of (category_breakdown r) k = Some 0)"
proof -
  let ?pb = "fill_breakdown (map (\<lambda>k. (k, 0)) PRIORITY_KEYS) (values_count priority ts)"
  let ?cb = "fill_breakdown (map (\<lambda>k. (k, 0)) CATEGORY_KEYS) (values_count category ts)"
  have keys: "set (map fst ?pb) = set PRIORITY_KEYS \<union> priority ` set ts"
    "set (map fst ?cb) = set CATEGORY_KEYS \<union> category ` set ts"
    by (simp_all add: breakdown_all_keys)
  have dist: "distinct (map fst ?pb)" "distinct (map fst ?cb)"
    by (intro fill_breakdown_distinct zero_init(1) zero_init(2))+
  have fixed: "map fst ?pb = PRIORITY_KEYS \<and> map fst ?cb = CATEGORY_KEYS"
    if "\<forall>t \<in> set ts. in_enumerations t"
    using that by (simp add: breakdown_fixed_keys in_enumerations_def)
  have zero_p: "map_of ?pb k = Some 0" if "k \<in> set PRIORITY_KEYS" "k \<notin> priority ` set ts" for k
  proof -
    from that(2) have "filter (\<lambda>t. priority t = k) ts = []"
      by (auto simp: filter_empty_conv)
    with that(1) show ?thesis by (simp add: breakdown_count keys_distinct)
  qed
  have zero_c: "map_of ?cb k = Some 0" if "k \<in> set CATEGORY_KEYS" "k \<notin> category ` set ts" for k
  proof -
    from that(2) have "filter (\<lambda>t. category t = k) ts = []"
      by (auto simp: filter_empty_conv)
    with that(1) show ?thesis by (simp add: breakdown_count keys_distinct)
  qed
  from keys dist fixed zero_p zero_c show ?thesis
    by (simp add: stats_Inr)
qed

theorem stats_breakdown_keys_witness:
  "\<exists>r. stats (day 7) [ticket_refund, ticket_login, ticket_order] = Inr r
     \<and> map fst (priority_breakdown r) = [''low'', ''medium'', ''high'', ''critical'']
     \<and> map fst (category_breakdown r) = [''billing'', ''technical'', ''account'', ''general'']
     \<and> map_of (priority_breakdown r) ''critical'' = Some 0
     \<and> map_of (category_breakdown r) ''technical'' = Some 0"
proof -
  let ?ts = "[ticket_refund, ticket_login, ticket_order]"
  obtain r where r: "stats (day 7) ?ts = Inr r"
    and fixed: "(\<forall>t \<in> set ?ts. in_enumerations t) \<longrightarrow>
          map fst (priority_breakdown r) = PRIORITY_KEYS
          \<and> map fst (category_breakdown r) = CATEGORY_KEYS"
    and zero_p: "\<forall>k \<in> set PRIORITY_KEYS. k \<notin> priority ` set ?ts \<longrightarrow>
          map_of (priority_breakdown r) k = Some 0"
    and zero_c: "\<forall>k \<in> set CATEGORY_KEYS. k \<notin> category ` set ?ts \<longrightarrow>
          map_of (category_breakdown r) k = Some 0"
    using stats_breakdown_keys [of "day 7" ?ts] by blast
  from fixed sample_in_enumerations
  have "map fst (priority_breakdown r) = [''low'', ''medium'', ''high'', ''critical'']"
    and "map fst (category_breakdown r) = [''billing'', ''technical'', ''account'', ''general'']"
    by (simp_all add: PRIORITY_KEYS_def CATEGORY_KEYS_def)
  moreover from zero_p have "map_of (priority_breakdown r) ''critical'' = Some 0"
    by (simp add: PRIORITY_KEYS_def ticket_refund_def ticket_login_def ticket_order_def)
  moreover from zero_c have "map_of (category_breakdown r) ''technical'' = Some 0"
    by (simp add: CATEGORY_KEYS_def ticket_refund_def ticket_login_def ticket_order_def)
  ultimately show ?thesis using r by (intro exI [of _ r]) simp
qed

section \<open>The sums of the breakdowns\<close>

text \<open>
  Claim C10. For every ticket set whose priorities and categories are members of the
  enumerations, each breakdown holds exactly its four fixed keys, the count of a key is the
  number of tickets that have it, and the counts of each breakdown add up to the total
  number of tickets.
\<close>

theorem stats_breakdown_sums:
  assumes "\<forall>t \<in> set ts. in_enumerations t"
  shows "\<exists>r. stats now ts = Inr r
     \<and> total_tickets r = length ts
     \<and> map fst (priority_breakdown r) = PRIORITY_KEYS
     \<and> sum_list (map snd (priority_breakdown r)) = total_tickets r
     \<and> map fst (category_breakdown r) = CATEGORY_KEYS
     \<and> sum_list (map snd (category_breakdown r)) = total_tickets r
     \<and> (\<forall>k \<in> set PRIORITY_KEYS.
          map_of (priority_breakdown r) k = Some (length (filter (\<lambda>t. priority t = k) ts)))
     \<and> (\<forall>k \<in> set CATEGORY_KEYS.
          map_of (category_breakdown r) k = Some (length (filter (\<lambda>t. category t = k) ts)))"
proof -
  let ?pb = "fill_breakdown (map (\<lambda>k. (k, 0)) PRIORITY_KEYS) (values_count priority ts)"
  let ?cb = "fill_breakdown (map (\<lambda>k. (k, 0)) CATEGORY_KEYS) (values_count category ts)"
  have "map fst ?pb = PRIORITY_KEYS" and "map fst ?cb = CATEGORY_KEYS"
    using assms by (simp_all add: breakdown_fixed_keys in_enumerations_def)
  moreover have "sum_list (map snd ?pb) = length ts" and "sum_list (map snd ?cb) = length ts"
    by (simp_all add: breakdown_total keys_distinct)
  moreover have "\<forall>k \<in> set PRIORITY_KEYS.
      map_of ?pb k = Some (length (filter (\<lambda>t. priority t = k) ts))"
    by (simp add: breakdown_count keys_distinct)
  moreover have "\<forall>k \<in> set CATEGORY_KEYS.
      map_of ?cb k = Some (length (filter (\<lambda>t. category t = k) ts))"
    by (simp add: breakdown_count keys_distinct)
  ultimately show ?thesis by (simp add: stats_Inr)
qed

theorem stats_breakdown_sums_witness:
  "\<exists>r. stats (day 7) [ticket_refund, ticket_login, ticket_order] = Inr r
     \<and> total_tickets r = 3
     \<and> sum_list (map snd (priority_breakdown r)) = 3
     \<and> sum_list (map snd (category_breakdown r)) = 3
     \<and> map_of (priority_breakdown r) ''high'' = Some 1
     \<and> map_of (category_breakdown r) ''billing'' = Some 2"
proof -
  let ?ts = "[ticket_refund, ticket_login, ticket_order]"
  obtain r where r: "stats (day 7) ?ts = Inr r" "total_tickets r = length ?ts"
    "sum_list (map snd (priority_breakdown r)) = total_tickets r"
    "sum_list (map snd (category_breakdown r)) = total_tickets r"
    and p: "\<forall>k \<in> set PRIORITY_KEYS.
          map_of (priority_breakdown r) k = Some (length (filter (\<lambda>t. priority t = k) ?ts))"
    and c: "\<forall>k \<in> set CATEGORY_KEYS.
          map_of (category_breakdown r) k = Some (length (filter (\<lambda>t. category t = k) ?ts))"
    using stats_breakdown_sums [OF sample_in_enumerations, of "day 7"] by blast
  from p have "map_of (priority_breakdown r) ''high'' = Some 1"
    by (simp add: PRIORITY_KEYS_def ticket_refund_def ticket_login_def ticket_order_def)
  moreover from c have "map_of (category_breakdown r) ''billing'' = Some 2"
    by (simp add: CATEGORY_KEYS_def ticket_refund_def ticket_login_def ticket_order_def)
  ultimately show ?thesis using r by (intro exI [of _ r]) simp
qed

end
